theory Spec2Isabelle
  imports Main "HOL-Library.Word" "HOL-Library.AList"
begin

unbundle bit_operations_syntax

section \<open>Data model of the block reader\<close>

text \<open>
  The layer-aware variant of \<^verbatim>\<open>App.tsx\<close> declares
  \<^verbatim>\<open>interface Block { x: number; y: number; z: number; name: string; ... }\<close>.
  Coordinates are integers. The handler tests \<^verbatim>\<open>block.name\<close> for truthiness, so a record
  may lack its name: \<open>None\<close> is the absent name, \<open>Some []\<close> the empty string.
  Strings are lists of code units below 256.
\<close>

record block =
  block_x :: int
  block_y :: int
  block_z :: int
  block_name :: "string option"

datatype material_type = Block | Fluid

text \<open>\<^verbatim>\<open>interface MaterialInfo { count: number; type: 'block' | 'fluid' }\<close>\<close>

record material_info =
  m_count :: nat
  m_type :: material_type

subsection \<open>Plain JavaScript objects used as dictionaries\<close>

text \<open>
  \<^verbatim>\<open>Materials\<close>, \<^verbatim>\<open>BlockColors\<close> and the checkbox map are plain objects (\<^verbatim>\<open>{}\<close>).
  Their own properties are an association list in creation order. A plain object
  inherits from \<^verbatim>\<open>Object.prototype\<close>, so a read \<^verbatim>\<open>obj[k]\<close> of a key that is not an
  own property still finds a value when \<open>k\<close> names a member of that prototype; each
  such member is a function or an object, hence truthy.
\<close>

type_synonym 'v js_object = "(string \<times> 'v) list"

definition Object_prototype_keys :: "string list" where
  "Object_prototype_keys =
     [''constructor'', ''hasOwnProperty'', ''isPrototypeOf'', ''propertyIsEnumerable'',
      ''toLocaleString'', ''toString'', ''valueOf'', ''__proto__'',
      ''__defineGetter__'', ''__defineSetter__'', ''__lookupGetter__'', ''__lookupSetter__'']"

datatype 'v js_prop = Undefined | Own 'v | Inherited

definition js_get :: "'v js_object \<Rightarrow> string \<Rightarrow> 'v js_prop" where
  "js_get obj k =
     (case map_of obj k of
        Some v \<Rightarrow> Own v
      | None \<Rightarrow> if k \<in> set Object_prototype_keys then Inherited else Undefined)"

text \<open>\<^verbatim>\<open>obj[k] = v\<close>: an existing own property keeps its place, a new one goes last.\<close>

definition js_set :: "'v js_object \<Rightarrow> string \<Rightarrow> 'v \<Rightarrow> 'v js_object" where
  "js_set obj k v = AList.update k v obj"

type_synonym materials = "material_info js_object"
type_synonym block_colors = "string js_object"

section \<open>Numbers and strings of the host language\<close>

text \<open>\<^verbatim>\<open>ToInt32\<close>: the value modulo \<open>2 ^ 32\<close>, read as two's complement.\<close>

definition ToInt32 :: "int \<Rightarrow> int" where
  "ToInt32 n = sint (word_of_int n :: 32 word)"

text \<open>\<^verbatim>\<open>a << k\<close> and \<^verbatim>\<open>a & b\<close> work on the 32-bit images of their operands.\<close>

definition js_shl :: "int \<Rightarrow> nat \<Rightarrow> int" where
  "js_shl a k = sint (push_bit (k mod 32) (word_of_int a :: 32 word))"

definition js_and :: "int \<Rightarrow> int \<Rightarrow> int" where
  "js_and a b = sint ((word_of_int a :: 32 word) AND word_of_int b)"

text \<open>\<^verbatim>\<open>a % b\<close> truncates towards zero: the result has the sign of \<open>a\<close>.\<close>

definition js_rem :: "int \<Rightarrow> int \<Rightarrow> int" where
  "js_rem a b = sgn a * (\<bar>a\<bar> mod \<bar>b\<bar>)"

text \<open>Decimal rendering of an integer, as a template literal \<^verbatim>\<open>${n}\<close> prints it.\<close>

definition digit_char :: "nat \<Rightarrow> char" where
  "digit_char d = char_of (48 + d)"

function string_of_nat :: "nat \<Rightarrow> string" where
  "string_of_nat n =
     (if n < 10 then [digit_char n] else string_of_nat (n div 10) @ [digit_char (n mod 10)])"
  by pat_completeness auto
termination
  by (relation "measure id") auto

declare string_of_nat.simps [simp del]

definition number_to_string :: "int \<Rightarrow> string" where
  "number_to_string i =
     (if i < 0 then CHR ''-'' # string_of_nat (nat (- i)) else string_of_nat (nat i))"

section \<open>Color hash\<close>

text \<open>
  \<^verbatim>\<open>
  const generateColorFromName = (name: string): string => {
    let hash = 0
    for (let i = 0; i < name.length; i++) {
      const char = name.charCodeAt(i)
      hash = ((hash << 5) - hash) + char
      hash = hash & hash // Convert to 32bit integer
    }
    const hue = Math.abs(hash % 360)
    const saturation = 65 + (Math.abs(hash) % 20)
    const lightness = 45 + (Math.abs(hash) % 15)
    return `hsl(${hue}, ${saturation}%, ${lightness}%)`
  }
  \<close>
\<close>

definition hash_step :: "int \<Rightarrow> int \<Rightarrow> int" where
  "hash_step hash char = (let h1 = (js_shl hash 5 - hash) + char in js_and h1 h1)"

definition name_hash :: "int list \<Rightarrow> int" where
  "name_hash codes = foldl hash_step 0 codes"

definition hsl :: "int \<Rightarrow> int \<Rightarrow> int \<Rightarrow> string" where
  "hsl hue saturation lightness =
     ''hsl('' @ number_to_string hue @ '', '' @ number_to_string saturation @ ''%, ''
       @ number_to_string lightness @ ''%)''"

definition charCodes :: "string \<Rightarrow> int list" where
  "charCodes name = map of_char name"

definition generateColorFromName :: "string \<Rightarrow> string" where
  "generateColorFromName name =
     (let hash = name_hash (charCodes name);
          hue = \<bar>js_rem hash 360\<bar>;
          saturation = 65 + js_rem \<bar>hash\<bar> 20;
          lightness = 45 + js_rem \<bar>hash\<bar> 15
      in hsl hue saturation lightness)"

text \<open>
  The recurrence as the specification words it: \<open>h * 31 + charCode\<close>, each step
  wrapped into the signed 32-bit range.
\<close>

definition wrap32 :: "int \<Rightarrow> int" where
  "wrap32 n = (n + 2 ^ 31) mod 2 ^ 32 - 2 ^ 31"

definition spec_hash :: "int list \<Rightarrow> int" where
  "spec_hash codes = foldl (\<lambda>h c. wrap32 (h * 31 + c)) 0 codes"

section \<open>Application state and the local key-value store\<close>

text \<open>
  The component's \<^verbatim>\<open>useState\<close> cells and the \<^verbatim>\<open>isLoadingFromStorage\<close> ref. The
  active tab and the display-name table only drive the markup and are left out.
  The field \<open>error\<close> is the message shown; the empty string means none.
\<close>

record app_state =
  materials :: materials
  fileName :: string
  error :: string
  checkedItems :: "bool js_object"
  blocks :: "block list"
  blockColors :: block_colors
  selectedLayer :: "int option"
  isLoadingFromStorage :: bool

text \<open>
  \<^verbatim>\<open>localStorage\<close>, one optional entry per key. \<^verbatim>\<open>JSON.stringify\<close> followed by
  \<^verbatim>\<open>JSON.parse\<close> gives the value back, so an entry holds the value itself.
\<close>

record local_storage =
  ls_materials :: "materials option"
  ls_checkedItems :: "bool js_object option"
  ls_blocks :: "block list option"
  ls_blockColors :: "block_colors option"

subsection \<open>Persistence effects\<close>

text \<open>
  \<^verbatim>\<open>
  useEffect(() => {
    if (blocks.length > 0) { localStorage.setItem('blocks', JSON.stringify(blocks)) }
  }, [blocks])
  useEffect(() => {
    if (Object.keys(blockColors).length > 0) { localStorage.setItem('blockColors', ...) }
  }, [blockColors])
  useEffect(() => {
    if (Object.keys(materials).length > 0) { localStorage.setItem('materials', ...) }
  }, [materials])
  useEffect(() => {
    if (!isLoadingFromStorage.current) { localStorage.setItem('checkedItems', ...) }
  }, [checkedItems])
  \<close>
\<close>

definition save_blocks :: "app_state \<Rightarrow> local_storage \<Rightarrow> local_storage" where
  "save_blocks s ls = (if length (blocks s) > 0 then ls\<lparr>ls_blocks := Some (blocks s)\<rparr> else ls)"

definition save_blockColors :: "app_state \<Rightarrow> local_storage \<Rightarrow> local_storage" where
  "save_blockColors s ls =
     (if length (map fst (blockColors s)) > 0 then ls\<lparr>ls_blockColors := Some (blockColors s)\<rparr>
      else ls)"

definition save_materials :: "app_state \<Rightarrow> local_storage \<Rightarrow> local_storage" where
  "save_materials s ls =
     (if length (map fst (materials s)) > 0 then ls\<lparr>ls_materials := Some (materials s)\<rparr>
      else ls)"

definition save_checkedItems :: "app_state \<Rightarrow> local_storage \<Rightarrow> local_storage" where
  "save_checkedItems s ls =
     (if \<not> isLoadingFromStorage s then ls\<lparr>ls_checkedItems := Some (checkedItems s)\<rparr> else ls)"

text \<open>The effects of one commit, in the order the component declares them.\<close>

definition run_effects :: "app_state \<Rightarrow> local_storage \<Rightarrow> local_storage" where
  "run_effects s ls = save_checkedItems s (save_materials s (save_blockColors s (save_blocks s ls)))"

section \<open>Import\<close>

text \<open>
  \<^verbatim>\<open>String.prototype.toLowerCase\<close> on code units below 256: the letters A to Z and
  the capital letters of the Latin-1 range (192 to 222, without the multiplication
  sign 215) move up by 32.
\<close>

definition lower_char :: "char \<Rightarrow> char" where
  "lower_char c =
     (let n = (of_char c :: nat)
      in if (65 \<le> n \<and> n \<le> 90) \<or> (192 \<le> n \<and> n \<le> 222 \<and> n \<noteq> 215) then char_of (n + 32)
         else c)"

definition toLowerCase :: "string \<Rightarrow> string" where
  "toLowerCase s = map lower_char s"

text \<open>\<^verbatim>\<open>s.includes(sub)\<close>: \<open>sub\<close> occurs in \<open>s\<close> as a contiguous run.\<close>

fun js_includes :: "string \<Rightarrow> string \<Rightarrow> bool" where
  "js_includes [] sub = (sub = [])"
| "js_includes (c # cs) sub = (take (length sub) (c # cs) = sub \<or> js_includes cs sub)"

text \<open>
  The result of \<^verbatim>\<open>JSON.parse\<close> as the handler reads it. \<open>Throws\<close>: the text does not
  parse (or parses to \<^verbatim>\<open>null\<close>, whose property read throws as well); control goes to
  the \<^verbatim>\<open>catch\<close> block with the exception's message. \<open>Document\<close>: the values of the
  \<^verbatim>\<open>blocks\<close> and \<^verbatim>\<open>fluids\<close> properties, each missing (or falsy), a value that is no
  array, or an array of records.
\<close>

datatype 'a js_field = Missing | NotArray | JArray "'a list"

datatype parsed = Throws string | Document "block js_field" "block js_field"

text \<open>Truthiness of a property read, given the truthiness of own values.\<close>

fun js_truthy :: "('v \<Rightarrow> bool) \<Rightarrow> 'v js_prop \<Rightarrow> bool" where
  "js_truthy t Undefined = False"
| "js_truthy t (Own v) = t v"
| "js_truthy t Inherited = True"

text \<open>
  One iteration of either \<^verbatim>\<open>forEach\<close> of the handler, \<open>ty\<close> being the list's type:
  \<^verbatim>\<open>
  if (block.name && !block.name.toLowerCase().includes('empty')) {
    if (!materialCounts[block.name]) {
      materialCounts[block.name] = { count: 0, type: 'block' }
    }
    materialCounts[block.name].count += 1
  }
  \<close>
  An entry object is truthy. When the read yields an inherited member, no entry is
  created and the increment lands on that member, outside the tally.
\<close>

definition countRecord :: "material_type \<Rightarrow> materials \<Rightarrow> block \<Rightarrow> materials" where
  "countRecord ty materialCounts b =
     (case block_name b of
        None \<Rightarrow> materialCounts
      | Some n \<Rightarrow>
          if n \<noteq> [] \<and> \<not> js_includes (toLowerCase n) ''empty'' then
            (let mc1 = (if \<not> js_truthy (\<lambda>_. True) (js_get materialCounts n)
                        then js_set materialCounts n \<lparr>m_count = 0, m_type = ty\<rparr>
                        else materialCounts)
             in case js_get mc1 n of
                  Own e \<Rightarrow> js_set mc1 n (e\<lparr>m_count := m_count e + 1\<rparr>)
                | _ \<Rightarrow> mc1)
          else materialCounts)"

definition countMaterials :: "block list \<Rightarrow> block js_field \<Rightarrow> materials" where
  "countMaterials bl ff =
     (let materialCounts = foldl (countRecord Block) [] bl
      in case ff of
           JArray fl \<Rightarrow> foldl (countRecord Fluid) materialCounts fl
         | _ \<Rightarrow> materialCounts)"

text \<open>
  \<^verbatim>\<open>
  const ensureBlockColors = (blocksToColor: Block[]) => {
    const newColors = { ...blockColors }
    let hasNewColors = false
    blocksToColor.forEach(block => {
      if (block.name && !newColors[block.name]) {
        newColors[block.name] = generateColorFromName(block.name)
        hasNewColors = true
      }
    })
    if (hasNewColors) { setBlockColors(newColors) }
  }
  \<close>
  A stored color is truthy when it is not the empty string.
\<close>

definition colorStep :: "block_colors \<times> bool \<Rightarrow> block \<Rightarrow> block_colors \<times> bool" where
  "colorStep acc b =
     (case acc of (newColors, hasNewColors) \<Rightarrow>
        (case block_name b of
           None \<Rightarrow> (newColors, hasNewColors)
         | Some n \<Rightarrow>
             if n \<noteq> [] \<and> \<not> js_truthy (\<lambda>c. c \<noteq> []) (js_get newColors n)
             then (js_set newColors n (generateColorFromName n), True)
             else (newColors, hasNewColors)))"

definition ensureBlockColors :: "block list \<Rightarrow> app_state \<Rightarrow> app_state" where
  "ensureBlockColors blocksToColor s =
     (case foldl colorStep (blockColors s, False) blocksToColor of
        (newColors, hasNewColors) \<Rightarrow>
          if hasNewColors then s\<lparr>blockColors := newColors\<rparr> else s)"

text \<open>
  The body of \<^verbatim>\<open>reader.onload\<close>:
  \<^verbatim>\<open>
  try {
    const json = JSON.parse(e.target?.result as string)
    if (!json.blocks || !Array.isArray(json.blocks)) {
      setError('JSON must contain a "blocks" array')
      setMaterials({})
      return
    }
    ... count materials ...
    setMaterials(materialCounts)
    setBlocks(json.blocks)
    ensureBlockColors(json.blocks)
  } catch (err) {
    setError(`Failed to parse JSON: ${...}`)
    setMaterials({})
    setBlocks([])
  }
  \<close>
\<close>

definition schema_message :: string where
  "schema_message = ''JSON must contain a '' @ [char_of (34::nat)] @ ''blocks'' @ [char_of (34::nat)] @ '' array''"

definition reader_onload :: "parsed \<Rightarrow> app_state \<Rightarrow> app_state" where
  "reader_onload p s =
     (case p of
        Throws msg \<Rightarrow> s\<lparr>error := ''Failed to parse JSON: '' @ msg, materials := [], blocks := []\<rparr>
      | Document bf ff \<Rightarrow>
          (case bf of
             JArray bl \<Rightarrow>
               ensureBlockColors bl (s\<lparr>materials := countMaterials bl ff, blocks := bl\<rparr>)
           | _ \<Rightarrow> s\<lparr>error := schema_message, materials := []\<rparr>))"

text \<open>
  \<^verbatim>\<open>handleFileImport\<close>: no file chosen, nothing happens; otherwise the file name is
  stored, the error is cleared, and the reader's callback runs on the file's content.
\<close>

definition handleFileImport :: "(string \<times> parsed) option \<Rightarrow> app_state \<Rightarrow> app_state" where
  "handleFileImport file s =
     (case file of
        None \<Rightarrow> s
      | Some (file_name, content) \<Rightarrow> reader_onload content (s\<lparr>fileName := file_name, error := []\<rparr>))"

text \<open>An import followed by the effects of the resulting commit.\<close>

definition import_and_persist ::
  "(string \<times> parsed) option \<Rightarrow> app_state \<times> local_storage \<Rightarrow> app_state \<times> local_storage" where
  "import_and_persist file sl =
     (case sl of (s, ls) \<Rightarrow> (let s' = handleFileImport file s in (s', run_effects s' ls)))"

text \<open>
  \<^verbatim>\<open>setCheckedItems(prev => ({ ...prev, [material]: !prev[material] }))\<close>
\<close>

definition toggleChecked :: "string \<Rightarrow> app_state \<Rightarrow> app_state" where
  "toggleChecked material s =
     s\<lparr>checkedItems :=
         js_set (checkedItems s) material (\<not> js_truthy (\<lambda>b. b) (js_get (checkedItems s) material))\<rparr>"

section \<open>Display\<close>

text \<open>
  \<^verbatim>\<open>Array.prototype.sort\<close> with a comparison function is a stable sort: \<open>a\<close> stays
  before \<open>b\<close> unless the comparison of \<open>a\<close> with \<open>b\<close> is positive. Insertion from the
  right keeps that order.
\<close>

fun insert_by :: "('a \<Rightarrow> 'a \<Rightarrow> int) \<Rightarrow> 'a \<Rightarrow> 'a list \<Rightarrow> 'a list" where
  "insert_by cmp a [] = [a]"
| "insert_by cmp a (b # bs) = (if cmp a b \<le> 0 then a # b # bs else b # insert_by cmp a bs)"

definition Array_sort :: "('a \<Rightarrow> 'a \<Rightarrow> int) \<Rightarrow> 'a list \<Rightarrow> 'a list" where
  "Array_sort cmp xs = foldr (insert_by cmp) xs []"

text \<open>
  \<^verbatim>\<open>Object.entries(materials).sort((a, b) => b[1].count - a[1].count)\<close>, as a function
  of the entry list that \<^verbatim>\<open>Object.entries\<close> enumerates.
\<close>

definition sortedMaterials :: "(string \<times> material_info) list \<Rightarrow> (string \<times> material_info) list" where
  "sortedMaterials entries =
     Array_sort (\<lambda>a b. int (m_count (snd b)) - int (m_count (snd a))) entries"

text \<open>\<^verbatim>\<open>Object.values(materials).reduce((a, b) => a + b.count, 0)\<close>\<close>

definition materialsTotal :: "app_state \<Rightarrow> nat" where
  "materialsTotal s = foldl (\<lambda>a b. a + m_count b) 0 (map snd (materials s))"

text \<open>\<^verbatim>\<open>const totalBlocks = blocks.length\<close>\<close>

definition totalBlocks :: "app_state \<Rightarrow> nat" where
  "totalBlocks s = length (blocks s)"

section \<open>Layer viewer\<close>

text \<open>
  \<^verbatim>\<open>const blocksOnLayer = selectedLayer !== null ? blocks.filter(b => b.y === selectedLayer) : []\<close>
\<close>

definition blocksOnLayer :: "app_state \<Rightarrow> block list" where
  "blocksOnLayer s =
     (case selectedLayer s of
        Some l \<Rightarrow> filter (\<lambda>b. block_y b = l) (blocks s)
      | None \<Rightarrow> [])"

record bounds =
  minX :: int
  maxX :: int
  minZ :: int
  maxZ :: int

text \<open>
  \<^verbatim>\<open>Math.min(...values)\<close> and \<^verbatim>\<open>Math.max(...values)\<close> on a spread of at least one
  number. The caller returns before the spread when the list is empty.
\<close>

fun Math_min :: "int list \<Rightarrow> int" where
  "Math_min (v # vs) = fold min vs v"

fun Math_max :: "int list \<Rightarrow> int" where
  "Math_max (v # vs) = fold max vs v"

text \<open>
  \<^verbatim>\<open>
  const getGlobalGridBounds = () => {
    if (blocks.length === 0) return { minX: 0, maxX: 0, minZ: 0, maxZ: 0 }
    const xValues = blocks.map(b => b.x)
    const zValues = blocks.map(b => b.z)
    return { minX: Math.min(...xValues), maxX: Math.max(...xValues),
             minZ: Math.min(...zValues), maxZ: Math.max(...zValues) }
  }
  \<close>
\<close>

definition getGlobalGridBounds :: "app_state \<Rightarrow> bounds" where
  "getGlobalGridBounds s =
     (if length (blocks s) = 0 then \<lparr>minX = 0, maxX = 0, minZ = 0, maxZ = 0\<rparr>
      else (let xValues = map block_x (blocks s);
                zValues = map block_z (blocks s)
            in \<lparr>minX = Math_min xValues, maxX = Math_max xValues,
                minZ = Math_min zValues, maxZ = Math_max zValues\<rparr>))"

text \<open>The key \<^verbatim>\<open>`${x},${z}`\<close> of a grid cell.\<close>

definition gridKey :: "int \<Rightarrow> int \<Rightarrow> string" where
  "gridKey x z = number_to_string x @ '','' @ number_to_string z"

text \<open>
  \<^verbatim>\<open>
  const getBlockGridMap = () => {
    const map = new Map<string, Block>()
    blocksOnLayer.forEach(block => { map.set(`${block.x},${block.z}`, block) })
    return map
  }
  \<close>
\<close>

definition gridMapOf :: "block list \<Rightarrow> (string \<rightharpoonup> block)" where
  "gridMapOf layer = foldl (\<lambda>m b. m(gridKey (block_x b) (block_z b) \<mapsto> b)) Map.empty layer"

definition getBlockGridMap :: "app_state \<Rightarrow> (string \<rightharpoonup> block)" where
  "getBlockGridMap s = gridMapOf (blocksOnLayer s)"

text \<open>
  The cells the grid renders, row by row:
  \<^verbatim>\<open>
  Array.from({ length: globalBounds.maxX - globalBounds.minX + 1 }).map((_, xIdx) =>
    Array.from({ length: globalBounds.maxZ - globalBounds.minZ + 1 }).map((_, zIdx) => {
      const x = globalBounds.minX + xIdx
      const z = globalBounds.minZ + zIdx
      const block = blockMap.get(`${x},${z}`)
      ...
  \<close>
  A cell is occupied when the lookup finds a block.
\<close>

definition gridCells :: "bounds \<Rightarrow> (string \<rightharpoonup> block) \<Rightarrow> ((int \<times> int) \<times> block option) list" where
  "gridCells gb blockMap =
     concat (map (\<lambda>xIdx.
        map (\<lambda>zIdx.
           (let x = minX gb + int xIdx;
                z = minZ gb + int zIdx
            in ((x, z), blockMap (gridKey x z))))
          [0 ..< nat (maxZ gb - minZ gb + 1)])
       [0 ..< nat (maxX gb - minX gb + 1)])"

definition occupiedCells :: "((int \<times> int) \<times> block option) list \<Rightarrow> ((int \<times> int) \<times> block option) list" where
  "occupiedCells cells = filter (\<lambda>cell. snd cell \<noteq> None) cells"

text \<open>
  The grid is rendered when a layer is selected and holds a block:
  \<^verbatim>\<open>selectedLayer !== null && blocksOnLayer.length > 0 ? grid : ...\<close>
\<close>

definition renderGrid :: "app_state \<Rightarrow> ((int \<times> int) \<times> block option) list option" where
  "renderGrid s =
     (if selectedLayer s \<noteq> None \<and> length (blocksOnLayer s) > 0
      then Some (gridCells (getGlobalGridBounds s) (getBlockGridMap s))
      else None)"

section \<open>Notions of the specification\<close>

text \<open>
  A record qualifies for the tally when its name is present, non-empty, and its
  lowercase form does not contain \<open>empty\<close>. \<open>occurrences n bl\<close> is the number of
  qualifying records of \<open>bl\<close> named exactly \<open>n\<close>.
\<close>

definition qualifies :: "block \<Rightarrow> bool" where
  "qualifies b =
     (case block_name b of
        None \<Rightarrow> False
      | Some n \<Rightarrow> n \<noteq> [] \<and> \<not> js_includes (toLowerCase n) ''empty'')"

definition occurrences :: "string \<Rightarrow> block list \<Rightarrow> nat" where
  "occurrences n bl = length (filter (\<lambda>b. block_name b = Some n \<and> qualifies b) bl)"

definition fluid_records :: "block js_field \<Rightarrow> block list" where
  "fluid_records ff = (case ff of JArray fl \<Rightarrow> fl | _ \<Rightarrow> [])"

definition tally_total :: "materials \<Rightarrow> nat" where
  "tally_total m = sum_list (map (\<lambda>e. m_count (snd e)) m)"

text \<open>The count recorded for a name; a name without an entry has count 0.\<close>

definition entry_count :: "materials \<Rightarrow> string \<Rightarrow> nat" where
  "entry_count m n = (case map_of m n of None \<Rightarrow> 0 | Some e \<Rightarrow> m_count e)"

text \<open>
  No own entry under a name that \<^verbatim>\<open>Object.prototype\<close> supplies; and the records the
  handler's tally really counts.
\<close>

definition no_inherited_entry :: "materials \<Rightarrow> bool" where
  "no_inherited_entry mc = (\<forall>k \<in> set Object_prototype_keys. map_of mc k = None)"

definition counted :: "block \<Rightarrow> bool" where
  "counted b = (qualifies b \<and> (\<forall>n. block_name b = Some n \<longrightarrow> n \<notin> set Object_prototype_keys))"

text \<open>The coordinates of the cells the grid enumerates, row by row.\<close>

definition rectangle :: "bounds \<Rightarrow> (int \<times> int) list" where
  "rectangle gb =
     concat (map (\<lambda>xIdx. map (\<lambda>zIdx. (minX gb + int xIdx, minZ gb + int zIdx))
                    [0 ..< nat (maxZ gb - minZ gb + 1)])
               [0 ..< nat (maxX gb - minX gb + 1)])"

section \<open>Example inputs\<close>

definition block_at :: "string \<Rightarrow> int \<Rightarrow> int \<Rightarrow> int \<Rightarrow> block" where
  "block_at n x y z = \<lparr>block_x = x, block_y = y, block_z = z, block_name = Some n\<rparr>"

definition empty_state :: app_state where
  "empty_state = \<lparr>materials = [], fileName = [], error = [], checkedItems = [], blocks = [],
     blockColors = [], selectedLayer = None, isLoadingFromStorage = False\<rparr>"

definition empty_storage :: local_storage where
  "empty_storage = \<lparr>ls_materials = None, ls_checkedItems = None, ls_blocks = None, ls_blockColors = None\<rparr>"

text \<open>The state and the store after a file with a single stone block was imported.\<close>

definition stone_state :: app_state where
  "stone_state = empty_state
     \<lparr>materials := [(''stone'', \<lparr>m_count = 1, m_type = Block\<rparr>)],
      fileName := ''stone.json'',
      blocks := [block_at ''stone'' 0 0 0],
      blockColors := [(''stone'', ''hsl(13, 78%, 58%)'')]\<rparr>"

definition stone_storage :: local_storage where
  "stone_storage =
     \<lparr>ls_materials = Some [(''stone'', \<lparr>m_count = 1, m_type = Block\<rparr>)],
      ls_checkedItems = Some [],
      ls_blocks = Some [block_at ''stone'' 0 0 0],
      ls_blockColors = Some [(''stone'', ''hsl(13, 78%, 58%)'')]\<rparr>"

text \<open>Two blocks on layer 0, at opposite corners of a 3 by 4 grid.\<close>

definition corners_state :: app_state where
  "corners_state = empty_state
     \<lparr>blocks := [block_at ''stone'' 0 0 0, block_at ''dirt'' 2 0 3], selectedLayer := Some 0\<rparr>"

text \<open>Layer 0 with two blocks in one cell and a third block elsewhere; one block on layer 1.\<close>

definition stacked_state :: app_state where
  "stacked_state = empty_state
     \<lparr>blocks := [block_at ''stone'' 0 0 0, block_at ''dirt'' 0 0 0, block_at ''sand'' 2 0 3,
                 block_at ''stone'' 1 1 1],
      selectedLayer := Some 0\<rparr>"

text \<open>A color map, as read back from the store, whose entry for stone is the empty string.\<close>

definition blank_color_state :: app_state where
  "blank_color_state = empty_state\<lparr>blockColors := [(''stone'', [])]\<rparr>"

section \<open>Properties of the color hash\<close>

lemma ToInt32_wrap32: "ToInt32 n = wrap32 n"
  by (simp add: ToInt32_def wrap32_def sint_sbintrunc' signed_take_bit_eq_take_bit_shift
      take_bit_eq_mod)

lemma hash_step_word:
  "hash_step h c = sint (word_of_int (h * 31 + c) :: 32 word)"
proof -
  have "(word_of_int (js_shl h 5 - h + c) :: 32 word) = word_of_int (h * 31 + c)"
    by (simp add: js_shl_def push_bit_eq_mult)
  then show ?thesis
    by (simp add: hash_step_def js_and_def Let_def mult.commute)
qed

lemma hash_step_wrap32: "hash_step h c = wrap32 (h * 31 + c)"
  using hash_step_word [of h c] ToInt32_wrap32 [of "h * 31 + c"]
  by (simp add: ToInt32_def)

lemma name_hash_spec_hash: "name_hash codes = spec_hash codes"
proof -
  have "foldl hash_step a codes = foldl (\<lambda>h c. wrap32 (h * 31 + c)) a codes" for a
    by (induction codes arbitrary: a) (simp_all add: hash_step_wrap32)
  then show ?thesis
    by (simp add: name_hash_def spec_hash_def)
qed

lemma js_rem_abs: "0 < b \<Longrightarrow> \<bar>js_rem a b\<bar> = \<bar>a\<bar> mod b"
  by (cases "a = 0") (simp_all add: js_rem_def abs_mult abs_sgn_eq)

lemma js_rem_nonneg: "0 \<le> a \<Longrightarrow> 0 < b \<Longrightarrow> js_rem a b = a mod b"
  by (cases "a = 0") (simp_all add: js_rem_def)

text \<open>
  C2. The color of a name is the HSL string with hue \<open>abs h mod 360\<close>, saturation
  \<open>65 + abs h mod 20\<close> and lightness \<open>45 + abs h mod 15\<close>, where \<open>h\<close> folds the
  character codes with \<open>h * 31 + charCode\<close> wrapped to signed 32 bits. The color is a
  function of the name alone.
\<close>

theorem generateColorFromName_spec:
  "generateColorFromName name =
     hsl (\<bar>spec_hash (charCodes name)\<bar> mod 360)
         (65 + \<bar>spec_hash (charCodes name)\<bar> mod 20)
         (45 + \<bar>spec_hash (charCodes name)\<bar> mod 15)"
  by (simp add: generateColorFromName_def Let_def name_hash_spec_hash js_rem_abs js_rem_nonneg)

lemma digit_char_values:
  "digit_char 0 = CHR ''0''" "digit_char 1 = CHR ''1''" "digit_char 2 = CHR ''2''"
  "digit_char 3 = CHR ''3''" "digit_char 4 = CHR ''4''" "digit_char 5 = CHR ''5''"
  "digit_char 6 = CHR ''6''" "digit_char 7 = CHR ''7''" "digit_char 8 = CHR ''8''"
  "digit_char 9 = CHR ''9''" "digit_char (Suc 0) = CHR ''1''"
  by (simp_all add: digit_char_def char_of_def bit_0 bit_Suc)

theorem generateColorFromName_spec_witness:
  "generateColorFromName ''stone'' = ''hsl(13, 78%, 58%)''"
  using generateColorFromName_spec [of "''stone''"]
  by (simp add: spec_hash_def charCodes_def wrap32_def hsl_def number_to_string_def
      string_of_nat.simps digit_char_values)

lemma color_of_stone: "generateColorFromName ''stone'' = ''hsl(13, 78%, 58%)''"
  by (simp add: generateColorFromName_def Let_def name_hash_spec_hash js_rem_abs js_rem_nonneg
      spec_hash_def charCodes_def wrap32_def hsl_def number_to_string_def
      string_of_nat.simps digit_char_values)

section \<open>Properties of the tally\<close>

lemma js_includes_iff: "js_includes s sub \<longleftrightarrow> (\<exists>p q. s = p @ sub @ q)"
proof (induction s)
  case Nil
  then show ?case by auto
next
  case (Cons c cs)
  have "(\<exists>p q. c # cs = p @ sub @ q) \<longleftrightarrow>
        (\<exists>q. c # cs = sub @ q) \<or> (\<exists>p q. cs = p @ sub @ q)"
  proof
    assume "\<exists>p q. c # cs = p @ sub @ q"
    then obtain p q where pq: "c # cs = p @ sub @ q" by blast
    show "(\<exists>q. c # cs = sub @ q) \<or> (\<exists>p q. cs = p @ sub @ q)"
    proof (cases p)
      case Nil
      with pq show ?thesis by auto
    next
      case (Cons a p')
      with pq have "cs = p' @ sub @ q" by simp
      then show ?thesis by blast
    qed
  next
    assume "(\<exists>q. c # cs = sub @ q) \<or> (\<exists>p q. cs = p @ sub @ q)"
    then show "\<exists>p q. c # cs = p @ sub @ q"
    proof
      assume "\<exists>q. c # cs = sub @ q"
      then obtain q where "c # cs = [] @ sub @ q" by auto
      then show ?thesis by blast
    next
      assume "\<exists>p q. cs = p @ sub @ q"
      then obtain p q where "c # cs = (c # p) @ sub @ q" by auto
      then show ?thesis by blast
    qed
  qed
  moreover have "(\<exists>q. c # cs = sub @ q) \<longleftrightarrow> take (length sub) (c # cs) = sub"
    by (metis append_eq_conv_conj append_take_drop_id)
  ultimately show ?case using Cons.IH by simp
qed

lemma map_of_js_set: "map_of (js_set obj k v) = (map_of obj)(k \<mapsto> v)"
  by (simp add: js_set_def update_conv')

lemma countRecord_unqualified: "\<not> qualifies b \<Longrightarrow> countRecord ty mc b = mc"
  by (auto simp: countRecord_def qualifies_def split: option.splits)

lemma countRecord_inherited:
  "qualifies b \<Longrightarrow> block_name b = Some n \<Longrightarrow> n \<in> set Object_prototype_keys \<Longrightarrow>
   map_of mc n = None \<Longrightarrow> countRecord ty mc b = mc"
  by (simp add: countRecord_def qualifies_def js_get_def)

lemma countRecord_new:
  "qualifies b \<Longrightarrow> block_name b = Some n \<Longrightarrow> n \<notin> set Object_prototype_keys \<Longrightarrow>
   map_of mc n = None \<Longrightarrow>
   countRecord ty mc b = js_set (js_set mc n \<lparr>m_count = 0, m_type = ty\<rparr>) n \<lparr>m_count = 1, m_type = ty\<rparr>"
  by (simp add: countRecord_def qualifies_def js_get_def map_of_js_set)

lemma countRecord_existing:
  "qualifies b \<Longrightarrow> block_name b = Some n \<Longrightarrow> map_of mc n = Some e \<Longrightarrow>
   countRecord ty mc b = js_set mc n (e\<lparr>m_count := m_count e + 1\<rparr>)"
  by (simp add: countRecord_def qualifies_def js_get_def)

lemma map_of_countRecord_other:
  "block_name b \<noteq> Some n \<Longrightarrow> map_of (countRecord ty mc b) n = map_of mc n"
  by (auto simp: countRecord_def map_of_js_set Let_def split: option.splits js_prop.splits)


lemma map_of_countRecord_name:
  assumes "block_name b = Some n" "n \<notin> set Object_prototype_keys"
  shows "map_of (countRecord ty mc b) n =
           (if qualifies b then
              (case map_of mc n of
                 None \<Rightarrow> Some \<lparr>m_count = 1, m_type = ty\<rparr>
               | Some e \<Rightarrow> Some (e\<lparr>m_count := m_count e + 1\<rparr>))
            else map_of mc n)"
proof (cases "qualifies b")
  case False
  then show ?thesis by (simp add: countRecord_unqualified)
next
  case True
  show ?thesis
  proof (cases "map_of mc n")
    case None
    with True assms show ?thesis by (simp add: countRecord_new map_of_js_set)
  next
    case (Some e)
    with True assms show ?thesis by (simp add: countRecord_existing map_of_js_set)
  qed
qed

lemma occurrences_simps:
  "occurrences n [] = 0"
  "occurrences n (b # bl) =
     (if block_name b = Some n \<and> qualifies b then Suc (occurrences n bl) else occurrences n bl)"
  by (simp_all add: occurrences_def)

lemma map_of_foldl_countRecord:
  assumes "n \<notin> set Object_prototype_keys"
  shows "map_of (foldl (countRecord ty) mc bl) n =
           (case map_of mc n of
              Some e \<Rightarrow> Some (e\<lparr>m_count := m_count e + occurrences n bl\<rparr>)
            | None \<Rightarrow> if occurrences n bl = 0 then None
                      else Some \<lparr>m_count = occurrences n bl, m_type = ty\<rparr>)"
proof (induction bl arbitrary: mc)
  case Nil
  then show ?case by (simp add: occurrences_simps split: option.splits)
next
  case (Cons b bl)
  show ?case
  proof (cases "block_name b = Some n")
    case False
    then show ?thesis
      by (simp add: Cons.IH map_of_countRecord_other occurrences_simps split: option.splits)
  next
    case True
    then show ?thesis
      using assms
      by (simp add: Cons.IH map_of_countRecord_name occurrences_simps split: option.splits)
  qed
qed

lemma map_of_foldl_countRecord_inherited:
  "n \<in> set Object_prototype_keys \<Longrightarrow> map_of mc n = None \<Longrightarrow>
   map_of (foldl (countRecord ty) mc bl) n = None"
proof (induction bl arbitrary: mc)
  case Nil
  then show ?case by simp
next
  case (Cons b bl)
  have "map_of (countRecord ty mc b) n = None"
  proof (cases "block_name b = Some n")
    case False
    then show ?thesis using Cons.prems by (simp add: map_of_countRecord_other)
  next
    case True
    then show ?thesis
      using Cons.prems
      by (cases "qualifies b") (simp_all add: countRecord_inherited countRecord_unqualified)
  qed
  then show ?case using Cons.prems by (simp add: Cons.IH)
qed

lemma map_of_countMaterials:
  assumes "n \<notin> set Object_prototype_keys"
  shows "map_of (countMaterials bl ff) n =
           (if occurrences n bl + occurrences n (fluid_records ff) = 0 then None
            else Some \<lparr>m_count = occurrences n bl + occurrences n (fluid_records ff),
                       m_type = (if 0 < occurrences n bl then Block else Fluid)\<rparr>)"
  using assms
  by (cases ff)
     (simp_all add: countMaterials_def fluid_records_def map_of_foldl_countRecord occurrences_simps)

lemma map_of_countMaterials_inherited:
  "n \<in> set Object_prototype_keys \<Longrightarrow> map_of (countMaterials bl ff) n = None"
  by (cases ff) (simp_all add: countMaterials_def map_of_foldl_countRecord_inherited)

lemma tally_total_update_new:
  "map_of al k = None \<Longrightarrow> tally_total (AList.update k v al) = tally_total al + m_count v"
  by (induction al) (auto simp: tally_total_def)

lemma tally_total_update_existing:
  "map_of al k = Some e \<Longrightarrow>
   tally_total (AList.update k v al) + m_count e = tally_total al + m_count v"
  by (induction al) (auto simp: tally_total_def)

lemma qualifies_name: "qualifies b \<Longrightarrow> \<exists>n. block_name b = Some n"
  by (auto simp: qualifies_def split: option.splits)

lemma no_inherited_entry_countRecord:
  assumes "no_inherited_entry mc"
  shows "no_inherited_entry (countRecord ty mc b)"
  unfolding no_inherited_entry_def
proof
  fix k assume k: "k \<in> set Object_prototype_keys"
  with assms have none: "map_of mc k = None" by (simp add: no_inherited_entry_def)
  show "map_of (countRecord ty mc b) k = None"
  proof (cases "block_name b = Some k")
    case False
    with none show ?thesis by (simp add: map_of_countRecord_other)
  next
    case True
    with none k show ?thesis
      by (cases "qualifies b") (simp_all add: countRecord_inherited countRecord_unqualified)
  qed
qed

lemma tally_total_countRecord:
  assumes "no_inherited_entry mc"
  shows "tally_total (countRecord ty mc b) = tally_total mc + (if counted b then 1 else 0)"
proof (cases "qualifies b")
  case False
  then show ?thesis by (simp add: countRecord_unqualified counted_def)
next
  case True
  then obtain n where n: "block_name b = Some n" using qualifies_name by blast
  show ?thesis
  proof (cases "n \<in> set Object_prototype_keys")
    case True
    with assms have "map_of mc n = None" by (simp add: no_inherited_entry_def)
    with True n \<open>qualifies b\<close> show ?thesis
      by (simp add: countRecord_inherited counted_def)
  next
    case False
    show ?thesis
    proof (cases "map_of mc n")
      case None
      have "map_of (js_set mc n \<lparr>m_count = 0, m_type = ty\<rparr>) n = Some \<lparr>m_count = 0, m_type = ty\<rparr>"
        by (simp add: map_of_js_set)
      from tally_total_update_existing [OF this [unfolded js_set_def], of "\<lparr>m_count = 1, m_type = ty\<rparr>"]
        tally_total_update_new [OF None, of "\<lparr>m_count = 0, m_type = ty\<rparr>"]
      show ?thesis
        using None False n \<open>qualifies b\<close>
        by (simp add: countRecord_new counted_def js_set_def)
    next
      case (Some e)
      from tally_total_update_existing [OF Some, of "e\<lparr>m_count := m_count e + 1\<rparr>"]
      show ?thesis
        using Some False n \<open>qualifies b\<close>
        by (simp add: countRecord_existing counted_def js_set_def)
    qed
  qed
qed

lemma foldl_countRecord_total:
  "no_inherited_entry mc \<Longrightarrow>
   no_inherited_entry (foldl (countRecord ty) mc bl) \<and>
   tally_total (foldl (countRecord ty) mc bl) = tally_total mc + length (filter counted bl)"
proof (induction bl arbitrary: mc)
  case Nil
  then show ?case by simp
next
  case (Cons b bl)
  from Cons.prems have "no_inherited_entry (countRecord ty mc b)"
    by (rule no_inherited_entry_countRecord)
  from Cons.IH [OF this] Cons.prems show ?case
    by (simp add: tally_total_countRecord)
qed

lemma tally_total_countMaterials:
  "tally_total (countMaterials bl ff) = length (filter counted (bl @ fluid_records ff))"
proof -
  have e: "no_inherited_entry []" by (simp add: no_inherited_entry_def)
  note b = foldl_countRecord_total [OF e, of Block bl]
  show ?thesis
  proof (cases ff)
    case (JArray fl)
    with b foldl_countRecord_total [of "foldl (countRecord Block) [] bl" Fluid fl]
    show ?thesis
      by (simp add: countMaterials_def fluid_records_def tally_total_def)
  qed (use b in \<open>simp_all add: countMaterials_def fluid_records_def tally_total_def\<close>)
qed

lemma foldl_add_count:
  "foldl (\<lambda>a b. a + m_count b) a0 es = a0 + sum_list (map m_count es)"
  by (induction es arbitrary: a0) simp_all

lemma materialsTotal_tally_total: "materialsTotal s = tally_total (materials s)"
  by (simp add: materialsTotal_def tally_total_def foldl_add_count comp_def)

lemma distinct_countRecord:
  "distinct (map fst mc) \<Longrightarrow> distinct (map fst (countRecord ty mc b))"
  by (auto simp: countRecord_def js_set_def Let_def distinct_update
      split: option.splits js_prop.splits)

lemma distinct_foldl_countRecord:
  "distinct (map fst mc) \<Longrightarrow> distinct (map fst (foldl (countRecord ty) mc bl))"
  by (induction bl arbitrary: mc) (simp_all add: distinct_countRecord)

lemma distinct_countMaterials: "distinct (map fst (countMaterials bl ff))"
  by (cases ff) (simp_all add: countMaterials_def distinct_foldl_countRecord)

lemma ensureBlockColors_other_fields:
  "blocks (ensureBlockColors bl s) = blocks s"
  "materials (ensureBlockColors bl s) = materials s"
  "error (ensureBlockColors bl s) = error s"
  by (simp_all add: ensureBlockColors_def split: prod.splits)

lemma countMaterials_counts:
  assumes "\<forall>b \<in> set (bl @ fluid_records ff). \<forall>k. block_name b = Some k \<longrightarrow> k \<notin> set Object_prototype_keys"
  shows "entry_count (countMaterials bl ff) n = occurrences n bl + occurrences n (fluid_records ff)"
    and "tally_total (countMaterials bl ff) =
           length (filter qualifies bl) + length (filter qualifies (fluid_records ff))"
proof -
  show "entry_count (countMaterials bl ff) n = occurrences n bl + occurrences n (fluid_records ff)"
  proof (cases "n \<in> set Object_prototype_keys")
    case True
    with assms have "\<forall>b \<in> set (bl @ fluid_records ff). block_name b \<noteq> Some n" by blast
    then have "occurrences n bl = 0" "occurrences n (fluid_records ff) = 0"
      by (auto simp: occurrences_def filter_empty_conv)
    with True show ?thesis
      by (simp add: entry_count_def map_of_countMaterials_inherited)
  next
    case False
    then show ?thesis
      by (simp add: entry_count_def map_of_countMaterials)
  qed
  have "filter counted (bl @ fluid_records ff) = filter qualifies (bl @ fluid_records ff)"
    using assms by (intro filter_cong refl) (auto simp: counted_def)
  then have "tally_total (countMaterials bl ff) = length (filter qualifies (bl @ fluid_records ff))"
    by (simp only: tally_total_countMaterials)
  then show "tally_total (countMaterials bl ff) =
           length (filter qualifies bl) + length (filter qualifies (fluid_records ff))"
    by simp
qed

lemma constructor_qualifies: "qualifies (block_at ''constructor'' x y z)"
  by (simp add: qualifies_def block_at_def toLowerCase_def lower_char_def)

text \<open>
  C1. The claim: for each name the tally's count is the number of qualifying records
  with that name across both lists, so the counts sum to the number of qualifying
  records. The handler tests \<^verbatim>\<open>!materialCounts[block.name]\<close> on a plain object: for
  the name \<open>constructor\<close> the read finds the inherited member, no entry is created,
  and the import of one qualifying record named \<open>constructor\<close> leaves the tally
  empty, with total 0 instead of 1. For names that no prototype member shadows the
  claim holds (\<open>countMaterials_counts\<close>).
\<close>

theorem tally_misses_inherited_name:
  "materials (handleFileImport
      (Some (''prefab.json'', Document (JArray [block_at ''constructor'' 0 0 0]) Missing))
      empty_state) = []
   \<and> materialsTotal (handleFileImport
      (Some (''prefab.json'', Document (JArray [block_at ''constructor'' 0 0 0]) Missing))
      empty_state) = 0
   \<and> occurrences ''constructor'' [block_at ''constructor'' 0 0 0] = 1
   \<and> length (filter qualifies [block_at ''constructor'' 0 0 0]) = 1"
proof -
  have "countMaterials [block_at ''constructor'' 0 0 0] Missing = []"
    by (simp add: countMaterials_def countRecord_def block_at_def toLowerCase_def lower_char_def
        js_get_def js_set_def Object_prototype_keys_def)
  then show ?thesis
    using constructor_qualifies [of 0 0 0]
    by (simp add: handleFileImport_def reader_onload_def ensureBlockColors_other_fields
        materialsTotal_def occurrences_def block_at_def)
qed

lemma single_entry:
  "distinct (map fst al) \<Longrightarrow> map_of al k = Some v \<Longrightarrow> length (filter (\<lambda>e. fst e = k) al) = 1"
proof (induction al)
  case Nil
  then show ?case by simp
next
  case (Cons e al)
  show ?case
  proof (cases "fst e = k")
    case True
    with Cons.prems have "k \<notin> fst ` set al" by simp
    then have "filter (\<lambda>e. fst e = k) al = []"
      unfolding filter_empty_conv by (metis imageI)
    with True show ?thesis by simp
  next
    case False
    with Cons show ?thesis by (cases e) simp
  qed
qed

lemma shared_name_block_category:
  assumes "n \<notin> set Object_prototype_keys" "0 < occurrences n bl" "0 < occurrences n fl"
  shows "map_of (countMaterials bl (JArray fl)) n =
           Some \<lparr>m_count = occurrences n bl + occurrences n fl, m_type = Block\<rparr>"
    and "length (filter (\<lambda>e. fst e = n) (countMaterials bl (JArray fl))) = 1"
proof -
  show m: "map_of (countMaterials bl (JArray fl)) n =
           Some \<lparr>m_count = occurrences n bl + occurrences n fl, m_type = Block\<rparr>"
    using assms by (simp add: map_of_countMaterials fluid_records_def)
  show "length (filter (\<lambda>e. fst e = n) (countMaterials bl (JArray fl))) = 1"
    by (rule single_entry [OF distinct_countMaterials m])
qed

lemma scenario_water:
  "materials (handleFileImport
      (Some (''water.json'',
             Document (JArray [block_at ''water'' 0 1 0]) (JArray [block_at ''water'' 0 1 1])))
      empty_state) = [(''water'', \<lparr>m_count = 2, m_type = Block\<rparr>)]"
  by (simp add: handleFileImport_def reader_onload_def ensureBlockColors_other_fields
      countMaterials_def countRecord_def block_at_def toLowerCase_def lower_char_def
      js_get_def js_set_def Object_prototype_keys_def)

lemma toString_qualifies: "qualifies (block_at ''toString'' x y z)"
  by (simp add: qualifies_def block_at_def toLowerCase_def lower_char_def)

text \<open>
  C4. The claim: a name that qualifies in both lists gets a single entry, counted
  across both lists, with category \<open>block\<close>. It holds for the \<open>water\<close> scenario
  (\<open>scenario_water\<close>) and for every name that no prototype member shadows
  (\<open>shared_name_block_category\<close>). For the name \<open>toString\<close>, present once in each
  list, the tally has no entry at all.
\<close>

theorem shared_inherited_name_has_no_entry:
  "materials (handleFileImport
      (Some (''prefab.json'',
             Document (JArray [block_at ''toString'' 0 1 0]) (JArray [block_at ''toString'' 0 1 1])))
      empty_state) = []
   \<and> occurrences ''toString'' [block_at ''toString'' 0 1 0] = 1
   \<and> occurrences ''toString'' [block_at ''toString'' 0 1 1] = 1"
proof -
  have "countMaterials [block_at ''toString'' 0 1 0] (JArray [block_at ''toString'' 0 1 1]) = []"
    by (simp add: countMaterials_def countRecord_def block_at_def toLowerCase_def lower_char_def
        js_get_def js_set_def Object_prototype_keys_def)
  then show ?thesis
    using toString_qualifies [of 0 1 0] toString_qualifies [of 0 1 1]
    by (simp add: handleFileImport_def reader_onload_def ensureBlockColors_other_fields
        occurrences_def block_at_def)
qed

section \<open>Error paths of the import\<close>

lemma parse_failure_clears:
  "materials (handleFileImport (Some (f, Throws msg)) s) = []
   \<and> blocks (handleFileImport (Some (f, Throws msg)) s) = []"
  by (simp add: handleFileImport_def reader_onload_def)

lemma schema_error_state:
  "\<forall>bl. bf \<noteq> JArray bl \<Longrightarrow>
   handleFileImport (Some (f, Document bf ff)) s =
     s\<lparr>fileName := f, error := schema_message, materials := []\<rparr>"
  by (cases bf) (simp_all add: handleFileImport_def reader_onload_def)

text \<open>
  C3. The claim: a parse failure and a schema error both reset the tally and the
  stored block list. The \<^verbatim>\<open>catch\<close> block does both (\<open>parse_failure_clears\<close>). The
  schema branch calls \<^verbatim>\<open>setMaterials({})\<close> and returns without \<^verbatim>\<open>setBlocks([])\<close>:
  after a document without \<^verbatim>\<open>blocks\<close> the tally is empty and the block list of the
  previous import is still there.
\<close>

theorem schema_error_keeps_blocks:
  "blocks (handleFileImport (Some (''wrong.json'', Document Missing Missing)) stone_state)
     = [block_at ''stone'' 0 0 0]
   \<and> materials (handleFileImport (Some (''wrong.json'', Document Missing Missing)) stone_state) = []
   \<and> error (handleFileImport (Some (''wrong.json'', Document Missing Missing)) stone_state)
     = schema_message"
  by (simp add: handleFileImport_def reader_onload_def stone_state_def empty_state_def)

section \<open>Persistence\<close>

text \<open>
  C9, as amended. After a commit, the stored tally map, block list and color map
  equal the in-memory value when that value is non-empty; when it is empty the
  stored entry is left as it was. The checkbox map is stored whenever loading from
  storage has completed.
\<close>

theorem run_effects_written:
  "ls_materials (run_effects s ls) = (if materials s \<noteq> [] then Some (materials s) else ls_materials ls)
   \<and> ls_blocks (run_effects s ls) = (if blocks s \<noteq> [] then Some (blocks s) else ls_blocks ls)
   \<and> ls_blockColors (run_effects s ls) =
        (if blockColors s \<noteq> [] then Some (blockColors s) else ls_blockColors ls)
   \<and> ls_checkedItems (run_effects s ls) =
        (if \<not> isLoadingFromStorage s then Some (checkedItems s) else ls_checkedItems ls)"
  by (simp add: run_effects_def save_checkedItems_def save_materials_def save_blockColors_def
      save_blocks_def)

theorem run_effects_written_witness:
  "ls_materials (run_effects stone_state empty_storage) = Some (materials stone_state)
   \<and> ls_blocks (run_effects stone_state empty_storage) = Some (blocks stone_state)
   \<and> ls_blockColors (run_effects stone_state empty_storage) = Some (blockColors stone_state)
   \<and> ls_checkedItems (run_effects stone_state empty_storage) = Some (checkedItems stone_state)"
  using run_effects_written [of stone_state empty_storage]
  by (simp add: stone_state_def empty_state_def)

text \<open>
  C9 as stated fails: a file that does not parse, imported after the stone file,
  empties the tally map and the block list in memory, and the store keeps the
  stone file's entries.
\<close>

theorem persistence_skips_empty_counterexample:
  "materials (fst (import_and_persist (Some (''bad.json'', Throws ''Unexpected end of JSON input''))
                    (stone_state, stone_storage))) = []
   \<and> ls_materials (snd (import_and_persist (Some (''bad.json'', Throws ''Unexpected end of JSON input''))
                    (stone_state, stone_storage)))
       \<noteq> Some (materials (fst (import_and_persist
                    (Some (''bad.json'', Throws ''Unexpected end of JSON input''))
                    (stone_state, stone_storage))))
   \<and> blocks (fst (import_and_persist (Some (''bad.json'', Throws ''Unexpected end of JSON input''))
                    (stone_state, stone_storage))) = []
   \<and> ls_blocks (snd (import_and_persist (Some (''bad.json'', Throws ''Unexpected end of JSON input''))
                    (stone_state, stone_storage)))
       \<noteq> Some (blocks (fst (import_and_persist
                    (Some (''bad.json'', Throws ''Unexpected end of JSON input''))
                    (stone_state, stone_storage))))"
  by (simp add: import_and_persist_def handleFileImport_def reader_onload_def Let_def
      run_effects_def save_checkedItems_def save_materials_def save_blockColors_def
      save_blocks_def stone_state_def stone_storage_def empty_state_def)

section \<open>Statistics\<close>

lemma countMaterials_skips:
  "countMaterials [\<lparr>block_x = 0, block_y = 0, block_z = 0, block_name = Some ''air_empty''\<rparr>,
                   \<lparr>block_x = 0, block_y = 0, block_z = 0, block_name = None\<rparr>] Missing = []"
  by (simp add: countMaterials_def countRecord_def toLowerCase_def lower_char_def)

text \<open>
  C10. After an import, the Total Blocks statistic is the length of the imported
  blocks array, whatever the names of its records; for a file holding one record
  named \<open>air_empty\<close> and one record without a name it is 2 while the tally's counts
  sum to 0.
\<close>

theorem totalBlocks_raw_length:
  "totalBlocks (handleFileImport (Some (f, Document (JArray bl) ff)) s) = length bl
   \<and> (\<exists>bl' ff'.
        materialsTotal (handleFileImport (Some (f, Document (JArray bl') ff')) s)
          < totalBlocks (handleFileImport (Some (f, Document (JArray bl') ff')) s))"
proof
  show "totalBlocks (handleFileImport (Some (f, Document (JArray bl) ff)) s) = length bl"
    by (simp add: totalBlocks_def handleFileImport_def reader_onload_def ensureBlockColors_other_fields)
  have "materialsTotal (handleFileImport (Some (f, Document (JArray
          [\<lparr>block_x = 0, block_y = 0, block_z = 0, block_name = Some ''air_empty''\<rparr>,
           \<lparr>block_x = 0, block_y = 0, block_z = 0, block_name = None\<rparr>]) Missing)) s) = 0"
    by (simp add: materialsTotal_def handleFileImport_def reader_onload_def
        ensureBlockColors_other_fields countMaterials_skips)
  moreover have "totalBlocks (handleFileImport (Some (f, Document (JArray
          [\<lparr>block_x = 0, block_y = 0, block_z = 0, block_name = Some ''air_empty''\<rparr>,
           \<lparr>block_x = 0, block_y = 0, block_z = 0, block_name = None\<rparr>]) Missing)) s) = 2"
    by (simp add: totalBlocks_def handleFileImport_def reader_onload_def ensureBlockColors_other_fields)
  ultimately show "\<exists>bl' ff'.
        materialsTotal (handleFileImport (Some (f, Document (JArray bl') ff')) s)
          < totalBlocks (handleFileImport (Some (f, Document (JArray bl') ff')) s)"
    by (metis zero_less_numeral)
qed

section \<open>Sorted display\<close>

lemma set_insert_by: "set (insert_by cmp a bs) = insert a (set bs)"
  by (induction bs) auto

lemma length_insert_by: "length (insert_by cmp a bs) = Suc (length bs)"
  by (induction bs) auto

lemma sorted_insert_by_count:
  "sorted_wrt (\<lambda>a b. m_count (snd b) \<le> m_count (snd a)) bs \<Longrightarrow>
   sorted_wrt (\<lambda>a b. m_count (snd b) \<le> m_count (snd a))
     (insert_by (\<lambda>a b. int (m_count (snd b)) - int (m_count (snd a))) e bs)"
  by (induction bs) (auto simp: set_insert_by)

lemma sorted_sortedMaterials:
  "sorted_wrt (\<lambda>a b. m_count (snd b) \<le> m_count (snd a)) (sortedMaterials entries)"
  unfolding sortedMaterials_def Array_sort_def
  by (induction entries) (simp_all add: sorted_insert_by_count)

lemma length_sortedMaterials: "length (sortedMaterials entries) = length entries"
  unfolding sortedMaterials_def Array_sort_def
  by (induction entries) (simp_all add: length_insert_by)

lemma set_sortedMaterials: "set (sortedMaterials entries) = set entries"
  unfolding sortedMaterials_def Array_sort_def
  by (induction entries) (simp_all add: set_insert_by)

text \<open>
  C8. In the sorted entry list every element's count is at least the count of its
  successor.
\<close>

theorem sortedMaterials_descending:
  "\<forall>i. Suc i < length (sortedMaterials entries) \<longrightarrow>
     m_count (snd (sortedMaterials entries ! Suc i)) \<le> m_count (snd (sortedMaterials entries ! i))"
  using sorted_sortedMaterials [of entries]
  by (simp add: sorted_wrt_iff_nth_less)

theorem sortedMaterials_descending_witness:
  "Suc 0 < length (sortedMaterials [(''dirt'', \<lparr>m_count = 1, m_type = Block\<rparr>),
                                    (''stone'', \<lparr>m_count = 2, m_type = Block\<rparr>)])
   \<and> m_count (snd (sortedMaterials [(''dirt'', \<lparr>m_count = 1, m_type = Block\<rparr>),
                                    (''stone'', \<lparr>m_count = 2, m_type = Block\<rparr>)] ! Suc 0))
     \<le> m_count (snd (sortedMaterials [(''dirt'', \<lparr>m_count = 1, m_type = Block\<rparr>),
                                       (''stone'', \<lparr>m_count = 2, m_type = Block\<rparr>)] ! 0))"
  using sortedMaterials_descending [of "[(''dirt'', \<lparr>m_count = 1, m_type = Block\<rparr>),
                                         (''stone'', \<lparr>m_count = 2, m_type = Block\<rparr>)]"]
  by (simp add: length_sortedMaterials)

section \<open>Grid bounds\<close>

lemma Math_min_Min: "vs \<noteq> [] \<Longrightarrow> Math_min vs = Min (set vs)"
proof (cases vs)
  case (Cons v ws)
  have "Min (set (v # ws)) = fold min ws v" by (rule Min.set_eq_fold)
  with Cons show ?thesis by simp
qed simp

lemma Math_max_Max: "vs \<noteq> [] \<Longrightarrow> Math_max vs = Max (set vs)"
proof (cases vs)
  case (Cons v ws)
  have "Max (set (v # ws)) = fold max ws v" by (rule Max.set_eq_fold)
  with Cons show ?thesis by simp
qed simp

text \<open>
  C5. The bounds are the least and greatest \<open>x\<close> and \<open>z\<close> over all blocks, whatever
  their layer and whatever layer is selected; without blocks all four bounds are 0.
\<close>

theorem getGlobalGridBounds_all_layers:
  "getGlobalGridBounds s =
     (if blocks s = [] then \<lparr>minX = 0, maxX = 0, minZ = 0, maxZ = 0\<rparr>
      else \<lparr>minX = Min (block_x ` set (blocks s)), maxX = Max (block_x ` set (blocks s)),
            minZ = Min (block_z ` set (blocks s)), maxZ = Max (block_z ` set (blocks s))\<rparr>)
   \<and> getGlobalGridBounds (s\<lparr>selectedLayer := l\<rparr>) = getGlobalGridBounds s"
  by (simp add: getGlobalGridBounds_def Let_def Math_min_Min Math_max_Max)

theorem getGlobalGridBounds_all_layers_witness:
  "blocks corners_state \<noteq> []
   \<and> getGlobalGridBounds corners_state = \<lparr>minX = 0, maxX = 2, minZ = 0, maxZ = 3\<rparr>
   \<and> getGlobalGridBounds (corners_state\<lparr>selectedLayer := Some 7\<rparr>) = getGlobalGridBounds corners_state"
  using getGlobalGridBounds_all_layers [of corners_state "Some 7"]
  by (simp add: corners_state_def empty_state_def block_at_def)

section \<open>Layer grid\<close>

lemma of_char_digit_char: "d < 10 \<Longrightarrow> of_char (digit_char d) = 48 + d"
  by (simp add: digit_char_def)

lemma digit_char_inj: "a < 10 \<Longrightarrow> b < 10 \<Longrightarrow> digit_char a = digit_char b \<Longrightarrow> a = b"
  by (metis of_char_digit_char add_left_cancel)

lemma digit_char_not_sep: "d < 10 \<Longrightarrow> digit_char d \<noteq> CHR '','' \<and> digit_char d \<noteq> CHR ''-''"
proof
  assume d: "d < 10"
  have "of_char (digit_char d) = 48 + d" using d by (rule of_char_digit_char)
  moreover have "(of_char CHR '','' :: nat) = 44" "(of_char CHR ''-'' :: nat) = 45" by simp_all
  ultimately show "digit_char d \<noteq> CHR '',''" "digit_char d \<noteq> CHR ''-''" by auto
qed

lemma string_of_nat_nonempty: "string_of_nat n \<noteq> []"
  by (subst string_of_nat.simps) simp

lemma string_of_nat_chars: "c \<in> set (string_of_nat n) \<Longrightarrow> \<exists>d < 10. c = digit_char d"
proof (induction n rule: string_of_nat.induct)
  case (1 n)
  show ?case
  proof (cases "n < 10")
    case True
    with "1.prems" show ?thesis by (subst (asm) string_of_nat.simps) auto
  next
    case False
    from "1.prems" have "c \<in> set (string_of_nat (n div 10)) \<or> c = digit_char (n mod 10)"
      using False by (subst (asm) string_of_nat.simps) auto
    then show ?thesis
    proof
      assume "c \<in> set (string_of_nat (n div 10))"
      with "1.IH" False show ?thesis by simp
    next
      assume "c = digit_char (n mod 10)"
      moreover have "n mod 10 < 10" by simp
      ultimately show ?thesis by blast
    qed
  qed
qed

lemma string_of_nat_inj: "string_of_nat a = string_of_nat b \<Longrightarrow> a = b"
proof (induction a arbitrary: b rule: string_of_nat.induct)
  case (1 a)
  show ?case
  proof (cases "a < 10")
    case a: True
    show ?thesis
    proof (cases "b < 10")
      case True
      with a "1.prems" have "digit_char a = digit_char b"
        by (simp add: string_of_nat.simps [of a] string_of_nat.simps [of b])
      with a True show ?thesis by (rule digit_char_inj)
    next
      case False
      with a "1.prems" have "[digit_char a] = string_of_nat (b div 10) @ [digit_char (b mod 10)]"
        by (simp add: string_of_nat.simps [of a] string_of_nat.simps [of b])
      then have "string_of_nat (b div 10) = []" by simp
      with string_of_nat_nonempty show ?thesis by blast
    qed
  next
    case a: False
    show ?thesis
    proof (cases "b < 10")
      case True
      with a "1.prems" have "string_of_nat (a div 10) @ [digit_char (a mod 10)] = [digit_char b]"
        by (simp add: string_of_nat.simps [of a] string_of_nat.simps [of b])
      then have "string_of_nat (a div 10) = []" by simp
      with string_of_nat_nonempty show ?thesis by blast
    next
      case False
      with a "1.prems" have "string_of_nat (a div 10) @ [digit_char (a mod 10)] =
          string_of_nat (b div 10) @ [digit_char (b mod 10)]"
        by (simp add: string_of_nat.simps [of a] string_of_nat.simps [of b])
      then have e: "string_of_nat (a div 10) = string_of_nat (b div 10)"
        and d: "digit_char (a mod 10) = digit_char (b mod 10)" by simp_all
      from "1.IH" [OF a e] have "a div 10 = b div 10" .
      moreover from d have "a mod 10 = b mod 10" by (intro digit_char_inj) simp_all
      ultimately show ?thesis by (metis div_mult_mod_eq)
    qed
  qed
qed

lemma string_of_nat_no_comma: "CHR '','' \<notin> set (string_of_nat n)"
proof
  assume "CHR '','' \<in> set (string_of_nat n)"
  then obtain d where "d < 10" "CHR '','' = digit_char d"
    using string_of_nat_chars by blast
  with digit_char_not_sep [of d] show False by simp
qed

lemma number_to_string_no_comma: "CHR '','' \<notin> set (number_to_string i)"
  by (simp add: number_to_string_def string_of_nat_no_comma)

lemma string_of_nat_no_minus: "hd (string_of_nat n) \<noteq> CHR ''-''"
proof -
  have "hd (string_of_nat n) \<in> set (string_of_nat n)"
    using string_of_nat_nonempty by simp
  then obtain d where "d < 10" "hd (string_of_nat n) = digit_char d"
    using string_of_nat_chars by blast
  with digit_char_not_sep [of d] show ?thesis by simp
qed

lemma number_to_string_inj: "number_to_string i = number_to_string j \<Longrightarrow> i = j"
proof -
  assume e: "number_to_string i = number_to_string j"
  consider "i < 0" "j < 0" | "i < 0" "\<not> j < 0" | "\<not> i < 0" "j < 0" | "\<not> i < 0" "\<not> j < 0" by blast
  then show "i = j"
  proof cases
    case 1
    with e have "string_of_nat (nat (- i)) = string_of_nat (nat (- j))"
      by (simp add: number_to_string_def)
    then have "nat (- i) = nat (- j)" by (rule string_of_nat_inj)
    with 1 show ?thesis by simp
  next
    case 2
    with e have "CHR ''-'' # string_of_nat (nat (- i)) = string_of_nat (nat j)"
      by (simp add: number_to_string_def)
    then have "hd (string_of_nat (nat j)) = CHR ''-''" by (metis list.sel(1))
    with string_of_nat_no_minus show ?thesis by blast
  next
    case 3
    with e have "CHR ''-'' # string_of_nat (nat (- j)) = string_of_nat (nat i)"
      by (simp add: number_to_string_def)
    then have "hd (string_of_nat (nat i)) = CHR ''-''" by (metis list.sel(1))
    with string_of_nat_no_minus show ?thesis by blast
  next
    case 4
    with e have "string_of_nat (nat i) = string_of_nat (nat j)"
      by (simp add: number_to_string_def)
    then have "nat i = nat j" by (rule string_of_nat_inj)
    with 4 show ?thesis by simp
  qed
qed

lemma split_at_separator:
  "c \<notin> set a \<Longrightarrow> c \<notin> set a' \<Longrightarrow> a @ c # b = a' @ c # b' \<Longrightarrow> a = a' \<and> b = b'"
proof (induction a arbitrary: a')
  case Nil
  then show ?case by (cases a') auto
next
  case (Cons x a)
  then show ?case by (cases a') auto
qed

lemma gridKey_inj: "gridKey x z = gridKey x' z' \<longleftrightarrow> x = x' \<and> z = z'"
proof
  assume "gridKey x z = gridKey x' z'"
  then have "number_to_string x @ CHR '','' # number_to_string z =
             number_to_string x' @ CHR '','' # number_to_string z'"
    by (simp add: gridKey_def)
  from split_at_separator [OF number_to_string_no_comma number_to_string_no_comma this]
  show "x = x' \<and> z = z'" by (auto dest: number_to_string_inj)
qed simp


lemma gridMapOf_snoc:
  "gridMapOf (layer @ [b]) = (gridMapOf layer)(gridKey (block_x b) (block_z b) \<mapsto> b)"
  by (simp add: gridMapOf_def)

lemma gridMapOf_lookup:
  "gridMapOf layer (gridKey x z) =
     (if filter (\<lambda>b. block_x b = x \<and> block_z b = z) layer = [] then None
      else Some (last (filter (\<lambda>b. block_x b = x \<and> block_z b = z) layer)))"
proof (induction layer rule: rev_induct)
  case Nil
  then show ?case by (simp add: gridMapOf_def)
next
  case (snoc b layer)
  show ?case
  proof (cases "block_x b = x \<and> block_z b = z")
    case True
    then show ?thesis
      by (simp add: gridMapOf_snoc)
  next
    case False
    then have k: "gridKey x z \<noteq> gridKey (block_x b) (block_z b)"
      by (auto simp: gridKey_inj)
    from False have f: "filter (\<lambda>b. block_x b = x \<and> block_z b = z) (layer @ [b]) =
        filter (\<lambda>b. block_x b = x \<and> block_z b = z) layer"
      by auto
    have "gridMapOf (layer @ [b]) (gridKey x z) = gridMapOf layer (gridKey x z)"
      using k by (simp add: gridMapOf_snoc)
    with snoc.IH show ?thesis
      by (simp only: f)
  qed
qed

lemma gridMapOf_occupied:
  "gridMapOf layer (gridKey x z) \<noteq> None \<longleftrightarrow> (x, z) \<in> (\<lambda>b. (block_x b, block_z b)) ` set layer"
proof -
  have "filter (\<lambda>b. block_x b = x \<and> block_z b = z) layer = [] \<longleftrightarrow>
        (x, z) \<notin> (\<lambda>b. (block_x b, block_z b)) ` set layer"
    by (auto simp: filter_empty_conv)
  then show ?thesis
    by (simp add: gridMapOf_lookup)
qed

lemma Math_min_le: "v \<in> set vs \<Longrightarrow> Math_min vs \<le> v"
proof -
  assume v: "v \<in> set vs"
  then have "vs \<noteq> []" by auto
  then have "Math_min vs = Min (set vs)" by (rule Math_min_Min)
  with v show ?thesis by simp
qed

lemma Math_max_ge: "v \<in> set vs \<Longrightarrow> v \<le> Math_max vs"
proof -
  assume v: "v \<in> set vs"
  then have "vs \<noteq> []" by auto
  then have "Math_max vs = Max (set vs)" by (rule Math_max_Max)
  with v show ?thesis by simp
qed

lemma block_within_bounds:
  assumes "b \<in> set (blocks s)"
  shows "minX (getGlobalGridBounds s) \<le> block_x b \<and> block_x b \<le> maxX (getGlobalGridBounds s)
       \<and> minZ (getGlobalGridBounds s) \<le> block_z b \<and> block_z b \<le> maxZ (getGlobalGridBounds s)"
proof -
  from assms have ne: "blocks s \<noteq> []" by auto
  from assms have "block_x b \<in> set (map block_x (blocks s))" "block_z b \<in> set (map block_z (blocks s))"
    by simp_all
  then show ?thesis
    using ne by (simp add: getGlobalGridBounds_def Let_def Math_min_le Math_max_ge)
qed

lemma gridCells_rectangle:
  "gridCells gb m = map (\<lambda>c. (c, m (gridKey (fst c) (snd c)))) (rectangle gb)"
  by (simp add: gridCells_def rectangle_def Let_def map_concat comp_def)

lemma rectangle_product:
  "rectangle gb =
     map (\<lambda>(i, j). (minX gb + int i, minZ gb + int j))
       (List.product [0 ..< nat (maxX gb - minX gb + 1)] [0 ..< nat (maxZ gb - minZ gb + 1)])"
  by (simp add: rectangle_def product_concat_map map_concat comp_def)

lemma distinct_rectangle: "distinct (rectangle gb)"
  unfolding rectangle_product
  by (auto simp: distinct_map distinct_product inj_on_def)

lemma set_rectangle:
  "set (rectangle gb) = {minX gb .. maxX gb} \<times> {minZ gb .. maxZ gb}"
proof (rule set_eqI)
  fix c :: "int \<times> int"
  obtain x z where c: "c = (x, z)" by (cases c)
  have "(x, z) \<in> set (rectangle gb) \<longleftrightarrow>
        (\<exists>i < nat (maxX gb - minX gb + 1). \<exists>j < nat (maxZ gb - minZ gb + 1).
            x = minX gb + int i \<and> z = minZ gb + int j)"
    unfolding rectangle_product by (auto simp: image_iff)
  also have "\<dots> \<longleftrightarrow> (minX gb \<le> x \<and> x \<le> maxX gb) \<and> (minZ gb \<le> z \<and> z \<le> maxZ gb)"
  proof
    assume "\<exists>i < nat (maxX gb - minX gb + 1). \<exists>j < nat (maxZ gb - minZ gb + 1).
            x = minX gb + int i \<and> z = minZ gb + int j"
    then show "(minX gb \<le> x \<and> x \<le> maxX gb) \<and> (minZ gb \<le> z \<and> z \<le> maxZ gb)" by auto
  next
    assume a: "(minX gb \<le> x \<and> x \<le> maxX gb) \<and> (minZ gb \<le> z \<and> z \<le> maxZ gb)"
    then have "nat (x - minX gb) < nat (maxX gb - minX gb + 1)" "x = minX gb + int (nat (x - minX gb))"
      "nat (z - minZ gb) < nat (maxZ gb - minZ gb + 1)" "z = minZ gb + int (nat (z - minZ gb))"
      by auto
    then show "\<exists>i < nat (maxX gb - minX gb + 1). \<exists>j < nat (maxZ gb - minZ gb + 1).
            x = minX gb + int i \<and> z = minZ gb + int j" by blast
  qed
  finally show "c \<in> set (rectangle gb) \<longleftrightarrow> c \<in> {minX gb .. maxX gb} \<times> {minZ gb .. maxZ gb}"
    using c by simp
qed

lemma occupied_count:
  assumes "set layer \<subseteq> set (blocks s)"
  shows "length (occupiedCells (gridCells (getGlobalGridBounds s) (gridMapOf layer))) =
         card ((\<lambda>b. (block_x b, block_z b)) ` set layer)"
proof -
  let ?gb = "getGlobalGridBounds s"
  let ?occ = "\<lambda>c. gridMapOf layer (gridKey (fst c) (snd c)) \<noteq> None"
  have "length (occupiedCells (gridCells ?gb (gridMapOf layer))) = length (filter ?occ (rectangle ?gb))"
    by (simp add: occupiedCells_def gridCells_rectangle filter_map comp_def)
  also have "\<dots> = card {c \<in> set (rectangle ?gb). ?occ c}"
    using distinct_rectangle [of ?gb] by (simp add: distinct_length_filter Int_def conj_commute)
  also have "{c \<in> set (rectangle ?gb). ?occ c} = (\<lambda>b. (block_x b, block_z b)) ` set layer"
  proof (rule set_eqI)
    fix c :: "int \<times> int"
    obtain x z where c: "c = (x, z)" by (cases c)
    have occ: "?occ c \<longleftrightarrow> c \<in> (\<lambda>b. (block_x b, block_z b)) ` set layer"
      unfolding c fst_conv snd_conv by (rule gridMapOf_occupied)
    have "c \<in> set (rectangle ?gb)" if "c \<in> (\<lambda>b. (block_x b, block_z b)) ` set layer"
    proof -
      from that obtain b where b: "b \<in> set layer" "c = (block_x b, block_z b)" by blast
      with assms have "b \<in> set (blocks s)" by blast
      from block_within_bounds [OF this] b show ?thesis by (simp add: set_rectangle)
    qed
    with occ show "c \<in> {c \<in> set (rectangle ?gb). ?occ c}
        \<longleftrightarrow> c \<in> (\<lambda>b. (block_x b, block_z b)) ` set layer"
      by blast
  qed
  finally show ?thesis .
qed

text \<open>
  C6. The lookup of the selected layer holds at most one block per cell: the key of
  \<open>(x, z)\<close> maps to the last block of the layer, in input order, that has these
  coordinates, and to nothing when there is none. In the rendered grid the number of
  occupied cells is the number of distinct \<open>(x, z)\<close> pairs among the layer's blocks.
\<close>

theorem grid_last_block_per_cell:
  "getBlockGridMap s (gridKey x z) =
     (if filter (\<lambda>b. block_x b = x \<and> block_z b = z) (blocksOnLayer s) = [] then None
      else Some (last (filter (\<lambda>b. block_x b = x \<and> block_z b = z) (blocksOnLayer s))))
   \<and> (\<forall>cells. renderGrid s = Some cells \<longrightarrow>
         length (occupiedCells cells) = card ((\<lambda>b. (block_x b, block_z b)) ` set (blocksOnLayer s)))"
proof
  show "getBlockGridMap s (gridKey x z) =
     (if filter (\<lambda>b. block_x b = x \<and> block_z b = z) (blocksOnLayer s) = [] then None
      else Some (last (filter (\<lambda>b. block_x b = x \<and> block_z b = z) (blocksOnLayer s))))"
    unfolding getBlockGridMap_def by (rule gridMapOf_lookup)
  have sub: "set (blocksOnLayer s) \<subseteq> set (blocks s)"
    by (auto simp: blocksOnLayer_def split: option.splits)
  from occupied_count [OF sub]
  show "\<forall>cells. renderGrid s = Some cells \<longrightarrow>
         length (occupiedCells cells) = card ((\<lambda>b. (block_x b, block_z b)) ` set (blocksOnLayer s))"
    by (simp add: renderGrid_def getBlockGridMap_def)
qed

lemma blocksOnLayer_stacked:
  "blocksOnLayer stacked_state =
     [block_at ''stone'' 0 0 0, block_at ''dirt'' 0 0 0, block_at ''sand'' 2 0 3]"
  by (simp add: blocksOnLayer_def stacked_state_def empty_state_def block_at_def)

theorem grid_last_block_per_cell_witness:
  "getBlockGridMap stacked_state (gridKey 0 0) = Some (block_at ''dirt'' 0 0 0)
   \<and> renderGrid stacked_state =
       Some (gridCells (getGlobalGridBounds stacked_state) (getBlockGridMap stacked_state))
   \<and> length (occupiedCells
        (gridCells (getGlobalGridBounds stacked_state) (getBlockGridMap stacked_state))) = 2"
proof -
  note t = grid_last_block_per_cell [of stacked_state 0 0]
  have r: "renderGrid stacked_state =
       Some (gridCells (getGlobalGridBounds stacked_state) (getBlockGridMap stacked_state))"
    by (simp add: renderGrid_def blocksOnLayer_stacked) (simp add: stacked_state_def)
  have "(\<lambda>b. (block_x b, block_z b)) ` set (blocksOnLayer stacked_state) = {(0, 0), (2, 3)}"
    by (auto simp: blocksOnLayer_stacked block_at_def)
  then have c: "card ((\<lambda>b. (block_x b, block_z b)) ` set (blocksOnLayer stacked_state)) = 2"
    by simp
  from t have "getBlockGridMap stacked_state (gridKey 0 0) = Some (block_at ''dirt'' 0 0 0)"
    by (simp add: blocksOnLayer_stacked block_at_def)
  moreover from t r c have "length (occupiedCells
        (gridCells (getGlobalGridBounds stacked_state) (getBlockGridMap stacked_state))) = 2"
    by simp
  ultimately show ?thesis using r by simp
qed

section \<open>Color priming\<close>

lemma generateColorFromName_nonempty: "generateColorFromName n \<noteq> []"
  by (simp add: generateColorFromName_def hsl_def Let_def)

lemma colorStep_cases:
  "colorStep (m, h) b = (m, h) \<or>
   (\<exists>n. block_name b = Some n \<and> n \<noteq> [] \<and> \<not> js_truthy (\<lambda>c. c \<noteq> []) (js_get m n) \<and>
        colorStep (m, h) b = (js_set m n (generateColorFromName n), True))"
  by (auto simp: colorStep_def split: option.splits)

lemma foldl_colorStep_keeps:
  "map_of m n = Some c \<Longrightarrow> c \<noteq> [] \<Longrightarrow> map_of (fst (foldl colorStep (m, h) bl)) n = Some c"
proof (induction bl arbitrary: m h)
  case Nil
  then show ?case by simp
next
  case (Cons b bl)
  from colorStep_cases [of m h b] show ?case
  proof
    assume "colorStep (m, h) b = (m, h)"
    with Cons show ?thesis by simp
  next
    assume "\<exists>k. block_name b = Some k \<and> k \<noteq> [] \<and> \<not> js_truthy (\<lambda>c. c \<noteq> []) (js_get m k) \<and>
        colorStep (m, h) b = (js_set m k (generateColorFromName k), True)"
    then obtain k where k: "\<not> js_truthy (\<lambda>c. c \<noteq> []) (js_get m k)"
      and step: "colorStep (m, h) b = (js_set m k (generateColorFromName k), True)" by blast
    from k Cons.prems have "k \<noteq> n" by (auto simp: js_get_def)
    then have "map_of (js_set m k (generateColorFromName k)) n = Some c"
      using Cons.prems by (simp add: map_of_js_set)
    from Cons.IH [OF this Cons.prems(2)] step show ?thesis by simp
  qed
qed

lemma foldl_colorStep_new:
  "map_of (fst (foldl colorStep (m, h) bl)) n = Some c \<Longrightarrow>
   map_of m n = Some c \<or>
   (c = generateColorFromName n \<and> \<not> js_truthy (\<lambda>c. c \<noteq> []) (js_get m n)
      \<and> Some n \<in> block_name ` set bl)"
proof (induction bl arbitrary: m h)
  case Nil
  then show ?case by simp
next
  case (Cons b bl)
  from colorStep_cases [of m h b] show ?case
  proof
    assume "colorStep (m, h) b = (m, h)"
    with Cons.prems Cons.IH [of m h] show ?thesis by auto
  next
    assume "\<exists>k. block_name b = Some k \<and> k \<noteq> [] \<and> \<not> js_truthy (\<lambda>c. c \<noteq> []) (js_get m k) \<and>
        colorStep (m, h) b = (js_set m k (generateColorFromName k), True)"
    then obtain k where bk: "block_name b = Some k"
      and k: "\<not> js_truthy (\<lambda>c. c \<noteq> []) (js_get m k)"
      and step: "colorStep (m, h) b = (js_set m k (generateColorFromName k), True)" by blast
    let ?m1 = "js_set m k (generateColorFromName k)"
    from Cons.prems step have "map_of (fst (foldl colorStep (?m1, True) bl)) n = Some c" by simp
    from Cons.IH [OF this]
    have disj: "map_of ?m1 n = Some c \<or>
      (c = generateColorFromName n \<and> \<not> js_truthy (\<lambda>c. c \<noteq> []) (js_get ?m1 n)
        \<and> Some n \<in> block_name ` set bl)" .
    show ?thesis
    proof (cases "k = n")
      case True
      with disj have "c = generateColorFromName n"
        by (auto simp: map_of_js_set)
      with True k bk show ?thesis by force
    next
      case False
      then have "js_get ?m1 n = js_get m n" "map_of ?m1 n = map_of m n"
        by (simp_all add: js_get_def map_of_js_set)
      with disj show ?thesis by auto
    qed
  qed
qed

lemma foldl_colorStep_flag_True: "snd (foldl colorStep (m, True) bl) = True"
proof (induction bl arbitrary: m)
  case Nil
  then show ?case by simp
next
  case (Cons b bl)
  from colorStep_cases [of m True b] Cons.IH show ?case by auto
qed

lemma foldl_colorStep_unchanged:
  "snd (foldl colorStep (m, False) bl) = False \<Longrightarrow> fst (foldl colorStep (m, False) bl) = m"
proof (induction bl arbitrary: m)
  case Nil
  then show ?case by simp
next
  case (Cons b bl)
  from colorStep_cases [of m False b] show ?case
  proof
    assume "colorStep (m, False) b = (m, False)"
    with Cons show ?thesis by simp
  next
    assume "\<exists>k. block_name b = Some k \<and> k \<noteq> [] \<and> \<not> js_truthy (\<lambda>c. c \<noteq> []) (js_get m k) \<and>
        colorStep (m, False) b = (js_set m k (generateColorFromName k), True)"
    then obtain m1 where "colorStep (m, False) b = (m1, True)" by blast
    with Cons.prems foldl_colorStep_flag_True [of m1 bl] show ?thesis by simp
  qed
qed

lemma blockColors_ensureBlockColors:
  "blockColors (ensureBlockColors bl s) = fst (foldl colorStep (blockColors s, False) bl)"
proof (cases "foldl colorStep (blockColors s, False) bl")
  case (Pair newColors hasNewColors)
  show ?thesis
  proof (cases hasNewColors)
    case True
    with Pair show ?thesis by (simp add: ensureBlockColors_def)
  next
    case False
    with Pair foldl_colorStep_unchanged [of "blockColors s" bl] show ?thesis
      by (simp add: ensureBlockColors_def)
  qed
qed

lemma foldl_colorStep_values:
  "\<forall>c \<in> snd ` set m. c \<noteq> [] \<Longrightarrow> \<forall>c \<in> snd ` set (fst (foldl colorStep (m, h) bl)). c \<noteq> []"
proof (induction bl arbitrary: m h)
  case Nil
  then show ?case by simp
next
  case (Cons b bl)
  from colorStep_cases [of m h b] show ?case
  proof
    assume "colorStep (m, h) b = (m, h)"
    with Cons show ?thesis by simp
  next
    assume "\<exists>k. block_name b = Some k \<and> k \<noteq> [] \<and> \<not> js_truthy (\<lambda>c. c \<noteq> []) (js_get m k) \<and>
        colorStep (m, h) b = (js_set m k (generateColorFromName k), True)"
    then obtain k where 
      step: "colorStep (m, h) b = (js_set m k (generateColorFromName k), True)" by blast
    have "set (AList.update k (generateColorFromName k) m) \<subseteq> insert (k, generateColorFromName k) (set m)"
      by (induction m) auto
    with Cons.prems have "\<forall>c \<in> snd ` set (js_set m k (generateColorFromName k)). c \<noteq> []"
      by (auto simp: js_set_def generateColorFromName_nonempty)
    from Cons.IH [OF this] step show ?thesis by simp
  qed
qed

lemma ensureBlockColors_values:
  assumes "\<forall>c \<in> snd ` set (blockColors s). c \<noteq> []"
  shows "\<forall>c \<in> snd ` set (blockColors (ensureBlockColors bl s)). c \<noteq> []"
  using foldl_colorStep_values [OF assms, of False bl]
  by (simp only: blockColors_ensureBlockColors)

text \<open>
  C7, as amended. Priming the colors of an imported block list keeps the color of
  every name whose stored color is a non-empty string. An entry is written only for
  a name of the block list that has no entry or whose stored color is the empty
  string, and the color written is the hash color of that name.
\<close>

theorem ensureBlockColors_keeps_assigned:
  "(\<forall>n c. map_of (blockColors s) n = Some c \<and> c \<noteq> [] \<longrightarrow>
        map_of (blockColors (ensureBlockColors bl s)) n = Some c)
   \<and> (\<forall>n c. map_of (blockColors (ensureBlockColors bl s)) n = Some c \<and>
             map_of (blockColors s) n \<noteq> Some c \<longrightarrow>
        (map_of (blockColors s) n = None \<or> map_of (blockColors s) n = Some [])
          \<and> c = generateColorFromName n \<and> Some n \<in> block_name ` set bl)"
proof (intro conjI allI impI)
  fix n c assume "map_of (blockColors s) n = Some c \<and> c \<noteq> []"
  then show "map_of (blockColors (ensureBlockColors bl s)) n = Some c"
    by (simp add: blockColors_ensureBlockColors foldl_colorStep_keeps)
next
  fix n c
  assume a: "map_of (blockColors (ensureBlockColors bl s)) n = Some c \<and>
             map_of (blockColors s) n \<noteq> Some c"
  with foldl_colorStep_new [of "blockColors s" False bl n c]
  have new: "c = generateColorFromName n" "\<not> js_truthy (\<lambda>c. c \<noteq> []) (js_get (blockColors s) n)"
    "Some n \<in> block_name ` set bl"
    by (simp_all add: blockColors_ensureBlockColors)
  have "map_of (blockColors s) n = None \<or> map_of (blockColors s) n = Some []"
  proof (cases "map_of (blockColors s) n")
    case (Some c0)
    with new(2) show ?thesis by (simp add: js_get_def)
  qed simp
  with new show "map_of (blockColors s) n = None \<or> map_of (blockColors s) n = Some []"
    "c = generateColorFromName n" "Some n \<in> block_name ` set bl" by simp_all
qed

theorem ensureBlockColors_keeps_assigned_witness:
  "map_of (blockColors stone_state) ''stone'' = Some ''hsl(13, 78%, 58%)''
   \<and> map_of (blockColors (ensureBlockColors [block_at ''stone'' 0 0 0, block_at ''dirt'' 1 0 0]
        stone_state)) ''stone'' = Some ''hsl(13, 78%, 58%)''
   \<and> map_of (blockColors stone_state) ''dirt'' = None
   \<and> map_of (blockColors (ensureBlockColors [block_at ''stone'' 0 0 0, block_at ''dirt'' 1 0 0]
        stone_state)) ''dirt'' = Some (generateColorFromName ''dirt'')"
proof -
  let ?bl = "[block_at ''stone'' 0 0 0, block_at ''dirt'' 1 0 0]"
  note t = ensureBlockColors_keeps_assigned [of stone_state ?bl]
  have p: "map_of (blockColors stone_state) ''stone'' = Some ''hsl(13, 78%, 58%)''"
    and q: "map_of (blockColors stone_state) ''dirt'' = None"
    by (simp_all add: stone_state_def empty_state_def)
  have ne: "''hsl(13, 78%, 58%)'' \<noteq> []" by simp
  from t p ne
  have k: "map_of (blockColors (ensureBlockColors ?bl stone_state)) ''stone'' = Some ''hsl(13, 78%, 58%)''"
    by blast
  have "map_of (blockColors (ensureBlockColors ?bl stone_state)) ''dirt'' \<noteq> None"
    by (simp add: ensureBlockColors_def colorStep_def block_at_def js_get_def js_set_def
        Object_prototype_keys_def stone_state_def empty_state_def)
  then obtain c where c: "map_of (blockColors (ensureBlockColors ?bl stone_state)) ''dirt'' = Some c"
    by blast
  with t q have "c = generateColorFromName ''dirt''" by (metis option.distinct(1))
  with c k p q show ?thesis by simp
qed

text \<open>
  C7 as stated fails: the color map is read from the store as it is, and a stored
  empty string is falsy, so the name counts as unassigned and its entry is replaced.
\<close>

theorem ensureBlockColors_replaces_empty_counterexample:
  "map_of (blockColors blank_color_state) ''stone'' = Some []
   \<and> map_of (blockColors (ensureBlockColors [block_at ''stone'' 0 0 0] blank_color_state)) ''stone''
       = Some ''hsl(13, 78%, 58%)''
   \<and> map_of (blockColors (ensureBlockColors [block_at ''stone'' 0 0 0] blank_color_state)) ''stone''
       \<noteq> map_of (blockColors blank_color_state) ''stone''"
  by (simp add: ensureBlockColors_def colorStep_def block_at_def js_get_def js_set_def
      Object_prototype_keys_def blank_color_state_def empty_state_def color_of_stone)

section \<open>The example state is reachable\<close>

lemma stone_state_import:
  "handleFileImport (Some (''stone.json'', Document (JArray [block_at ''stone'' 0 0 0]) Missing))
     empty_state = stone_state"
  by (simp add: handleFileImport_def reader_onload_def countMaterials_def countRecord_def
      ensureBlockColors_def colorStep_def block_at_def toLowerCase_def lower_char_def
      js_get_def js_set_def Object_prototype_keys_def color_of_stone
      stone_state_def empty_state_def)

lemma stone_storage_persist:
  "run_effects stone_state empty_storage = stone_storage"
  by (simp add: run_effects_def save_checkedItems_def save_materials_def save_blockColors_def
      save_blocks_def stone_state_def stone_storage_def empty_state_def empty_storage_def)

end
